theory Spec2Isabelle
  imports Main
begin

section \<open>Documents and the two collections\<close>

text \<open>
  \<^verbatim>\<open>models/itemSchema.js\<close> declares an item as a document with a \<^verbatim>\<open>name\<close>; the store adds
  the identifier \<^verbatim>\<open>_id\<close>.  The list schema declares a \<^verbatim>\<open>name\<close> and an array \<^verbatim>\<open>items\<close> of
  embedded item documents.  Identifiers are kept in their text form, the form in which the
  views hand them to the browser and the forms post them back.
\<close>

record item =
  item_id :: string
  item_name :: string

record list_doc =
  list_id :: string
  list_name :: string
  list_items :: "item list"

text \<open>
  The state a handler works on: the \<^verbatim>\<open>Item\<close> collection, the \<^verbatim>\<open>List\<close> collection (both in
  insertion order), the number of identifiers handed out so far, and a schedule of store
  failures.  Each call that goes to the store consumes the head of the schedule; \<open>True\<close>
  means that this call throws, the empty schedule means that every further call is answered.
  The schedule stands for everything that makes a call of the store library throw: a lost
  connection, and also a query that the library rejects, such as one with a string that is
  not the text of an identifier.  The handlers answer every such failure in their
  \<^verbatim>\<open>catch\<close> branches.
\<close>

record world =
  item_coll :: "item list"
  list_coll :: "list_doc list"
  next_oid :: nat
  faults :: "bool list"

text \<open>
  A field of a parsed request body.  The body parser delivers a string, nothing at all, or,
  for a repeated key, an array; \<open>NonString s\<close> stands for such an array, \<open>s\<close> being what
  string concatenation makes of it.  (Nested objects, which bracketed keys make, are left
  out of the model.)
\<close>

datatype field = Undefined | Str string | NonString string

datatype response =
    Render string "item list"
  | Redirect string
  | Status nat string

datatype request =
    GetHome
  | GetCustom string
  | PostAdd field field
  | PostEdit field field field
  | PostDelete field field

section \<open>Strings\<close>

text \<open>
  Strings are modelled over ASCII: case mapping touches the letters \<open>a\<close> to \<open>z\<close> and
  \<open>A\<close> to \<open>Z\<close> only, and white space is tab, line feed, vertical tab, form feed,
  carriage return and space.
\<close>

definition toLower :: "char \<Rightarrow> char" where
  "toLower c =
     (if 65 \<le> (of_char c :: nat) \<and> (of_char c :: nat) \<le> 90
      then char_of (of_char c + 32 :: nat) else c)"

definition toUpper :: "char \<Rightarrow> char" where
  "toUpper c =
     (if 97 \<le> (of_char c :: nat) \<and> (of_char c :: nat) \<le> 122
      then char_of (of_char c - 32 :: nat) else c)"

text \<open>
  \<^verbatim>\<open>_.capitalize\<close>, the library function of lodash, as the library documents it: the first
  character in upper case, the remaining ones in lower case.
\<close>

fun capitalize :: "string \<Rightarrow> string" where
  "capitalize [] = []"
| "capitalize (c # cs) = toUpper (toLower c) # map toLower cs"

definition is_space :: "char \<Rightarrow> bool" where
  "is_space c = ((of_char c :: nat) \<in> {9, 10, 11, 12, 13, 32})"

definition trim :: "string \<Rightarrow> string" where
  "trim s = rev (dropWhile is_space (rev (dropWhile is_space s)))"

text \<open>What JavaScript's \<^verbatim>\<open>!v\<close>, \<^verbatim>\<open>typeof v\<close> and \<^verbatim>\<open>'' + v\<close> make of a body field.\<close>

fun falsy :: "field \<Rightarrow> bool" where
  "falsy Undefined = True"
| "falsy (Str s) = (s = [])"
| "falsy (NonString s) = False"

fun typeof :: "field \<Rightarrow> string" where
  "typeof Undefined = ''undefined''"
| "typeof (Str s) = ''string''"
| "typeof (NonString s) = ''object''"

fun string_of :: "field \<Rightarrow> string" where
  "string_of Undefined = ''undefined''"
| "string_of (Str s) = s"
| "string_of (NonString s) = s"

section \<open>The store\<close>

fun update_first :: "('a \<Rightarrow> bool) \<Rightarrow> ('a \<Rightarrow> 'a) \<Rightarrow> 'a list \<Rightarrow> 'a list" where
  "update_first P f [] = []"
| "update_first P f (x # xs) = (if P x then f x # xs else x # update_first P f xs)"

fun remove_first :: "('a \<Rightarrow> bool) \<Rightarrow> 'a list \<Rightarrow> 'a list" where
  "remove_first P [] = []"
| "remove_first P (x # xs) = (if P x then xs else x # remove_first P xs)"

text \<open>
  One round trip to the store: \<open>Inl\<close> is the state in which the call threw, \<open>Inr\<close> the state
  in which it is answered.
\<close>

definition attempt :: "world \<Rightarrow> world + world" where
  "attempt st =
     (case faults st of
        [] \<Rightarrow> Inr st
      | f # fs \<Rightarrow> if f then Inl (st\<lparr>faults := fs\<rparr>) else Inr (st\<lparr>faults := fs\<rparr>))"

text \<open>
  An array cannot be cast to the \<^verbatim>\<open>String\<close> or identifier type of the schemas: the library
  rejects the query before it is sent.  An absent value in a filter is taken to match no
  document; the properties of the edit and delete handlers below that depend on what a
  filter matches are stated for strings.
\<close>

fun castable :: "field \<Rightarrow> bool" where
  "castable (NonString s) = False"
| "castable f = True"

text \<open>\<^verbatim>\<open>new Item({ name })\<close>: the document gets the next identifier of the generator \<open>gen\<close>.\<close>

definition new_Item :: "(nat \<Rightarrow> string) \<Rightarrow> string \<Rightarrow> world \<Rightarrow> item \<times> world" where
  "new_Item gen nm st =
     (\<lparr>item_id = gen (next_oid st), item_name = nm\<rparr>, st\<lparr>next_oid := Suc (next_oid st)\<rparr>)"

definition Item_find :: "world \<Rightarrow> world + item list \<times> world" where
  "Item_find st = (case attempt st of Inl s \<Rightarrow> Inl s | Inr s \<Rightarrow> Inr (item_coll s, s))"

definition Item_insertMany :: "item list \<Rightarrow> world \<Rightarrow> world + world" where
  "Item_insertMany ds st =
     (case attempt st of
        Inl s \<Rightarrow> Inl s
      | Inr s \<Rightarrow> Inr (s\<lparr>item_coll := item_coll s @ ds\<rparr>))"

text \<open>\<^verbatim>\<open>item.save()\<close> of a new document.\<close>

definition Item_save :: "item \<Rightarrow> world \<Rightarrow> world + world" where
  "Item_save d st =
     (case attempt st of
        Inl s \<Rightarrow> Inl s
      | Inr s \<Rightarrow> Inr (s\<lparr>item_coll := item_coll s @ [d]\<rparr>))"

text \<open>
  \<^verbatim>\<open>Item.findByIdAndUpdate(id, { name }, { new: true })\<close>: the first (and, identifiers being
  unique in a collection, the only) document with that identifier gets the name.
\<close>

fun set_name :: "field \<Rightarrow> item \<Rightarrow> item" where
  "set_name (Str s) d = d\<lparr>item_name := s\<rparr>"
| "set_name f d = d"

definition Item_findByIdAndUpdate :: "field \<Rightarrow> field \<Rightarrow> world \<Rightarrow> world + world" where
  "Item_findByIdAndUpdate oid nm st =
     (if \<not> castable oid \<or> \<not> castable nm then Inl st
      else case attempt st of
        Inl s \<Rightarrow> Inl s
      | Inr s \<Rightarrow>
          Inr (s\<lparr>item_coll :=
                 update_first (\<lambda>d. Str (item_id d) = oid) (set_name nm) (item_coll s)\<rparr>))"

definition Item_findByIdAndDelete :: "field \<Rightarrow> world \<Rightarrow> world + world" where
  "Item_findByIdAndDelete oid st =
     (if \<not> castable oid then Inl st
      else case attempt st of
        Inl s \<Rightarrow> Inl s
      | Inr s \<Rightarrow>
          Inr (s\<lparr>item_coll := remove_first (\<lambda>d. Str (item_id d) = oid) (item_coll s)\<rparr>))"

definition List_findOne :: "string \<Rightarrow> world \<Rightarrow> world + list_doc option \<times> world" where
  "List_findOne nm st =
     (case attempt st of
        Inl s \<Rightarrow> Inl s
      | Inr s \<Rightarrow> Inr (find (\<lambda>l. list_name l = nm) (list_coll s), s))"

text \<open>
  \<^verbatim>\<open>List.findOneAndUpdate({ name }, { $setOnInsert: { name, items } }, { new: true, upsert:
  true })\<close>: the first list of that name as it is, or, when there is none, a new list with
  that name and those items, which is inserted.
\<close>

definition List_findOneAndUpdate_upsert ::
    "(nat \<Rightarrow> string) \<Rightarrow> string \<Rightarrow> item list \<Rightarrow> world \<Rightarrow> world + list_doc \<times> world" where
  "List_findOneAndUpdate_upsert gen nm its st =
     (case attempt st of
        Inl s \<Rightarrow> Inl s
      | Inr s \<Rightarrow>
          (case find (\<lambda>l. list_name l = nm) (list_coll s) of
             Some l \<Rightarrow> Inr (l, s)
           | None \<Rightarrow>
               let l = \<lparr>list_id = gen (next_oid s), list_name = nm, list_items = its\<rparr>
               in Inr (l, s\<lparr>list_coll := list_coll s @ [l], next_oid := Suc (next_oid s)\<rparr>)))"

text \<open>
  \<^verbatim>\<open>foundList.items.push(item); foundList.save()\<close>: the save sends the pushed element for the
  document with the identifier of \<^verbatim>\<open>foundList\<close>.
\<close>

definition List_save_push :: "list_doc \<Rightarrow> item \<Rightarrow> world \<Rightarrow> world + world" where
  "List_save_push doc d st =
     (case attempt st of
        Inl s \<Rightarrow> Inl s
      | Inr s \<Rightarrow>
          Inr (s\<lparr>list_coll :=
                 update_first (\<lambda>l. list_id l = list_id doc)
                   (\<lambda>l. l\<lparr>list_items := list_items l @ [d]\<rparr>) (list_coll s)\<rparr>))"

text \<open>
  \<^verbatim>\<open>List.findOneAndUpdate({ name, 'items._id': id }, { $set: { 'items.$.name': title } })\<close>:
  in the first list of that name that embeds an item with that identifier, the first such
  item gets the name.
\<close>

definition List_findOneAndUpdate_set :: "field \<Rightarrow> field \<Rightarrow> field \<Rightarrow> world \<Rightarrow> world + world" where
  "List_findOneAndUpdate_set nm oid title st =
     (if \<not> castable nm \<or> \<not> castable oid \<or> \<not> castable title then Inl st
      else case attempt st of
        Inl s \<Rightarrow> Inl s
      | Inr s \<Rightarrow>
          Inr (s\<lparr>list_coll :=
                 update_first
                   (\<lambda>l. Str (list_name l) = nm \<and> list_ex (\<lambda>d. Str (item_id d) = oid) (list_items l))
                   (\<lambda>l. l\<lparr>list_items :=
                           update_first (\<lambda>d. Str (item_id d) = oid) (set_name title) (list_items l)\<rparr>)
                   (list_coll s)\<rparr>))"

text \<open>
  \<^verbatim>\<open>List.findOneAndUpdate({ name }, { $pull: { items: { _id: id } } })\<close>: the first list of
  that name loses every embedded item with that identifier.
\<close>

definition List_findOneAndUpdate_pull :: "field \<Rightarrow> field \<Rightarrow> world \<Rightarrow> world + world" where
  "List_findOneAndUpdate_pull nm oid st =
     (if \<not> castable nm \<or> \<not> castable oid then Inl st
      else case attempt st of
        Inl s \<Rightarrow> Inl s
      | Inr s \<Rightarrow>
          Inr (s\<lparr>list_coll :=
                 update_first (\<lambda>l. Str (list_name l) = nm)
                   (\<lambda>l. l\<lparr>list_items := filter (\<lambda>d. Str (item_id d) \<noteq> oid) (list_items l)\<rparr>)
                   (list_coll s)\<rparr>))"

section \<open>The seeder and the handlers of \<^verbatim>\<open>index.js\<close>\<close>

definition createDefaultItems :: "(nat \<Rightarrow> string) \<Rightarrow> world \<Rightarrow> world + item list \<times> world" where
  "createDefaultItems gen st0 =
     (let (item1, st1) = new_Item gen ''Welcome to your todolist!'' st0;
          (item2, st2) = new_Item gen ''Hit the + to add a new item'' st1;
          (item3, st3) = new_Item gen ''<-- Hit this to delete an item'' st2;
          defaultItems = [item1, item2, item3]
      in case Item_find st3 of
           Inl s \<Rightarrow> Inl s
         | Inr (existingItems, st4) \<Rightarrow>
             if length existingItems = 0 then
               (case Item_insertMany defaultItems st4 of
                  Inl s \<Rightarrow> Inl s
                | Inr st5 \<Rightarrow> Inr (defaultItems, st5))
             else Inr (defaultItems, st4))"

text \<open>\<^verbatim>\<open>app.get('/')\<close>; \<open>today\<close> is what \<^verbatim>\<open>getLocalDate()\<close> returns when the request is handled.\<close>

definition get_home :: "(nat \<Rightarrow> string) \<Rightarrow> string \<Rightarrow> world \<Rightarrow> response \<times> world" where
  "get_home gen today st =
     (case Item_find st of
        Inl s \<Rightarrow> (Status 500 ''Internal Server Error'', s)
      | Inr (foundItems, st1) \<Rightarrow>
          if length foundItems = 0 then
            (case createDefaultItems gen st1 of
               Inl s \<Rightarrow> (Status 500 ''Internal Server Error'', s)
             | Inr (defaultItems, st2) \<Rightarrow> (Redirect ''/'', st2))
          else (Render today foundItems, st1))"

text \<open>
  \<^verbatim>\<open>app.get('/:customNewList')\<close>.  The test \<^verbatim>\<open>!foundList\<close> of the source guards a log line
  only, and with \<^verbatim>\<open>upsert\<close> the call returns a document.
\<close>

definition get_custom :: "(nat \<Rightarrow> string) \<Rightarrow> string \<Rightarrow> world \<Rightarrow> response \<times> world" where
  "get_custom gen segment st =
     (let customNewList = capitalize segment
      in case createDefaultItems gen st of
           Inl s \<Rightarrow> (Status 500 ''Internal Server Error'', s)
         | Inr (defaultItems, st1) \<Rightarrow>
             (case List_findOneAndUpdate_upsert gen customNewList defaultItems st1 of
                Inl s \<Rightarrow> (Status 500 ''Internal Server Error'', s)
              | Inr (foundList, st2) \<Rightarrow>
                  (Render (list_name foundList) (list_items foundList), st2)))"

text \<open>\<^verbatim>\<open>app.post('/')\<close>, with \<^verbatim>\<open>itemName = req.body.newItem\<close> and \<^verbatim>\<open>listName = req.body.list\<close>.\<close>

definition post_add ::
    "(nat \<Rightarrow> string) \<Rightarrow> string \<Rightarrow> field \<Rightarrow> field \<Rightarrow> world \<Rightarrow> response \<times> world" where
  "post_add gen today itemName listName st =
     (if falsy itemName \<or> typeof itemName \<noteq> ''string'' \<or> length (trim (string_of itemName)) = 0
      then (Status 400 ''Item name must be a non-empty string'', st)
      else if falsy listName \<or> typeof listName \<noteq> ''string'' \<or> length (trim (string_of listName)) = 0
      then (Status 400 ''List name must be a non-empty string'', st)
      else
        let (item, st1) = new_Item gen (string_of itemName) st
        in if listName = Str today then
             (case Item_save item st1 of
                Inl s \<Rightarrow> (Status 500 ''Error adding item!'', s)
              | Inr st2 \<Rightarrow> (Redirect ''/'', st2))
           else
             (case List_findOne (string_of listName) st1 of
                Inl s \<Rightarrow> (Status 500 ''Error adding item!'', s)
              | Inr (None, st2) \<Rightarrow> (Status 400 ''List not found!'', st2)
              | Inr (Some foundList, st2) \<Rightarrow>
                  (case List_save_push foundList item st2 of
                     Inl s \<Rightarrow> (Status 500 ''Error adding item!'', s)
                   | Inr st3 \<Rightarrow> (Redirect (''/'' @ string_of listName), st3))))"

text \<open>
  \<^verbatim>\<open>app.post('/edit')\<close>, with \<^verbatim>\<open>newInput = req.body.updatedItemTitle\<close> and
  \<^verbatim>\<open>listName = req.body.customeListName\<close>.
\<close>

definition post_edit :: "string \<Rightarrow> field \<Rightarrow> field \<Rightarrow> field \<Rightarrow> world \<Rightarrow> response \<times> world" where
  "post_edit today updatedItemId newInput listName st =
     (if falsy updatedItemId \<or> falsy newInput
      then (Status 400 ''Missing updated item ID or title'', st)
      else if listName = Str today then
        (case Item_findByIdAndUpdate updatedItemId newInput st of
           Inl s \<Rightarrow> (Status 500 ''Failed to edit item'', s)
         | Inr st1 \<Rightarrow> (Redirect ''/'', st1))
      else
        (case List_findOneAndUpdate_set listName updatedItemId newInput st of
           Inl s \<Rightarrow> (Status 500 ''Failed to edit item'', s)
         | Inr st1 \<Rightarrow> (Redirect (''/'' @ string_of listName), st1)))"

text \<open>
  \<^verbatim>\<open>app.post('/delete')\<close>, with \<^verbatim>\<open>checkedListName = req.body.listName\<close> and
  \<^verbatim>\<open>checkedItemId = req.body.checkbox\<close>.
\<close>

definition post_delete :: "string \<Rightarrow> field \<Rightarrow> field \<Rightarrow> world \<Rightarrow> response \<times> world" where
  "post_delete today checkedListName checkedItemId st =
     (if checkedListName = Str today then
        (case Item_findByIdAndDelete checkedItemId st of
           Inl s \<Rightarrow> (Status 500 ''Error deleting item!'', s)
         | Inr st1 \<Rightarrow> (Redirect ''/'', st1))
      else
        (case List_findOneAndUpdate_pull checkedListName checkedItemId st of
           Inl s \<Rightarrow> (Status 500 ''Error deleting item from list!'', s)
         | Inr st1 \<Rightarrow> (Redirect (''/'' @ string_of checkedListName), st1)))"

text \<open>The router, and a sequence of requests handled one after the other, each on its day.\<close>

fun handle :: "(nat \<Rightarrow> string) \<Rightarrow> string \<Rightarrow> request \<Rightarrow> world \<Rightarrow> response \<times> world" where
  "handle gen today GetHome st = get_home gen today st"
| "handle gen today (GetCustom segment) st = get_custom gen segment st"
| "handle gen today (PostAdd itemName listName) st = post_add gen today itemName listName st"
| "handle gen today (PostEdit oid title listName) st = post_edit today oid title listName st"
| "handle gen today (PostDelete listName oid) st = post_delete today listName oid st"

fun run :: "(nat \<Rightarrow> string) \<Rightarrow> (string \<times> request) list \<Rightarrow> world \<Rightarrow> world" where
  "run gen [] st = st"
| "run gen ((today, rq) # rqs) st = run gen rqs (snd (handle gen today rq st))"

definition empty_store :: "bool list \<Rightarrow> world" where
  "empty_store fs = \<lparr>item_coll = [], list_coll = [], next_oid = 0, faults = fs\<rparr>"

text \<open>
  The start of the server (the asynchronous function at the end of \<^verbatim>\<open>index.js\<close>): once the
  connection stands, the seeder runs, and an error is logged and swallowed.
\<close>

definition startup :: "(nat \<Rightarrow> string) \<Rightarrow> world \<Rightarrow> world" where
  "startup gen st =
     (case createDefaultItems gen st of
        Inl s \<Rightarrow> s
      | Inr (defaultItems, s) \<Rightarrow> s)"

section \<open>Vocabulary of the properties\<close>

text \<open>The names of the three placeholder items of the seeder.\<close>

definition default_names :: "string list" where
  "default_names =
     [''Welcome to your todolist!'', ''Hit the + to add a new item'',
      ''<-- Hit this to delete an item'']"


definition names :: "world \<Rightarrow> string list" where
  "names st = map list_name (list_coll st)"

text \<open>At most one list document for each name.\<close>

definition distinct_names :: "world \<Rightarrow> bool" where
  "distinct_names st = distinct (names st)"


text \<open>
  The identifiers in the collection of items are pairwise different and have all been handed
  out by the generator.
\<close>

definition ids_fresh :: "(nat \<Rightarrow> string) \<Rightarrow> world \<Rightarrow> bool" where
  "ids_fresh gen st =
     (distinct (map item_id (item_coll st)) \<and>
      set (map item_id (item_coll st)) \<subseteq> gen ` {..<next_oid st})"

section \<open>Example data\<close>

text \<open>
  A generator for the examples: the identifiers are the 24 hexadecimal digits of a counter.
\<close>

definition hex_digit :: "nat \<Rightarrow> char" where
  "hex_digit d = ''0123456789abcdef'' ! (d mod 16)"

fun hex :: "nat \<Rightarrow> nat \<Rightarrow> string" where
  "hex 0 n = []"
| "hex (Suc k) n = hex k (n div 16) @ [hex_digit n]"

definition counter_oid :: "nat \<Rightarrow> string" where
  "counter_oid n = hex 24 n"

definition monday :: string where
  "monday = ''Monday, January 1''"

definition sample_store :: world where
  "sample_store =
     \<lparr>item_coll =
        [\<lparr>item_id = ''a1'', item_name = ''Buy milk''\<rparr>,
         \<lparr>item_id = ''a2'', item_name = ''Call the bank''\<rparr>],
      list_coll =
        [\<lparr>list_id = ''b1'', list_name = ''Work'',
          list_items =
            [\<lparr>item_id = ''c1'', item_name = ''Write report''\<rparr>,
             \<lparr>item_id = ''c2'', item_name = ''Book room''\<rparr>]\<rparr>,
         \<lparr>list_id = ''b2'', list_name = ''Foo'',
          list_items = [\<lparr>item_id = ''d1'', item_name = ''Welcome to your todolist!''\<rparr>]\<rparr>],
      next_oid = 7,
      faults = []\<rparr>"



section \<open>Lemmas on the strings\<close>













section \<open>Lemmas on lists\<close>









lemma map_update_first: "(\<And>x. g (f x) = g x) \<Longrightarrow> map g (update_first P f xs) = map g xs"
  by (induction xs) auto


lemma set_name_id: "item_id (set_name t d) = item_id d"
  by (cases t) auto

section \<open>Lemmas on the store\<close>

lemma attempt_no_faults: "faults st = [] \<Longrightarrow> attempt st = Inr st"
  by (simp add: attempt_def)

lemma attempt_Inl_iff:
  "(attempt st = Inl s) = (\<exists>fs. faults st = True # fs \<and> s = st\<lparr>faults := fs\<rparr>)"
  by (auto simp: attempt_def split: list.splits)

lemma attempt_Inr_iff:
  "(attempt st = Inr s) =
     (faults st = [] \<and> s = st \<or> (\<exists>fs. faults st = False # fs \<and> s = st\<lparr>faults := fs\<rparr>))"
  by (auto simp: attempt_def split: list.splits)

lemma createDefaultItems_no_faults:
  assumes "faults st = []"
  shows "createDefaultItems gen st =
     (let ds = [\<lparr>item_id = gen (next_oid st), item_name = ''Welcome to your todolist!''\<rparr>,
                \<lparr>item_id = gen (Suc (next_oid st)), item_name = ''Hit the + to add a new item''\<rparr>,
                \<lparr>item_id = gen (Suc (Suc (next_oid st))),
                 item_name = ''<-- Hit this to delete an item''\<rparr>]
      in Inr (ds, st\<lparr>next_oid := Suc (Suc (Suc (next_oid st))),
                     item_coll := (if item_coll st = [] then ds else item_coll st)\<rparr>))"
  using assms
  by (simp add: createDefaultItems_def new_Item_def Item_find_def Item_insertMany_def
      attempt_no_faults Let_def)

lemma createDefaultItems_frame:
  "(createDefaultItems gen st = Inl s \<longrightarrow> list_coll s = list_coll st) \<and>
   (createDefaultItems gen st = Inr (ds, s) \<longrightarrow> list_coll s = list_coll st)"
  by (auto simp: createDefaultItems_def new_Item_def Item_find_def Item_insertMany_def Let_def
      attempt_Inl_iff attempt_Inr_iff split: sum.splits if_splits)







section \<open>The names of the lists under every handler\<close>

lemma startup_names: "names (startup gen st) = names st"
  using createDefaultItems_frame[of gen st]
  by (auto simp: startup_def names_def split: sum.splits)

lemma get_home_names: "names (snd (get_home gen today st)) = names st"
  using createDefaultItems_frame[of gen]
  by (auto simp: get_home_def names_def Item_find_def attempt_Inl_iff attempt_Inr_iff
      split: sum.splits if_splits prod.splits)

lemma get_custom_names:
  "names (snd (get_custom gen seg st)) = names st \<or>
   (capitalize seg \<notin> set (names st) \<and>
    names (snd (get_custom gen seg st)) = names st @ [capitalize seg])"
proof (cases "createDefaultItems gen st")
  case (Inl s)
  with createDefaultItems_frame[of gen st s] show ?thesis
    by (simp add: get_custom_def names_def)
next
  case (Inr p)
  obtain ds s where p: "p = (ds, s)" by (cases p)
  with Inr createDefaultItems_frame[of gen st s ds] have l: "list_coll s = list_coll st" by simp
  show ?thesis
  proof (cases "attempt s")
    case (Inl s')
    then have "list_coll s' = list_coll s" by (auto simp: attempt_Inl_iff)
    with Inl \<open>createDefaultItems gen st = Inr p\<close> p l show ?thesis
      by (simp add: get_custom_def names_def List_findOneAndUpdate_upsert_def)
  next
    case (Inr s')
    then have a: "list_coll s' = list_coll s" by (auto simp: attempt_Inr_iff)
    show ?thesis
    proof (cases "find (\<lambda>ld. list_name ld = capitalize seg) (list_coll s')")
      case None
      then have "capitalize seg \<notin> set (names st)"
        using a l by (auto simp: find_None_iff names_def)
      with None \<open>createDefaultItems gen st = Inr p\<close> p l a Inr show ?thesis
        by (simp add: get_custom_def names_def List_findOneAndUpdate_upsert_def Let_def)
    next
      case (Some ld)
      with \<open>createDefaultItems gen st = Inr p\<close> p l a Inr show ?thesis
        by (simp add: get_custom_def names_def List_findOneAndUpdate_upsert_def Let_def)
    qed
  qed
qed

lemma post_add_names: "names (snd (post_add gen today itemName listName st)) = names st"
  by (auto simp: post_add_def names_def new_Item_def Item_save_def List_findOne_def
      List_save_push_def map_update_first Let_def attempt_Inl_iff attempt_Inr_iff
      split: sum.splits if_splits prod.splits option.splits)

lemma post_edit_names: "names (snd (post_edit today oid title listName st)) = names st"
  by (auto simp: post_edit_def names_def Item_findByIdAndUpdate_def List_findOneAndUpdate_set_def
      map_update_first attempt_Inl_iff attempt_Inr_iff split: sum.splits if_splits)

lemma post_delete_names: "names (snd (post_delete today listName oid st)) = names st"
  by (auto simp: post_delete_def names_def Item_findByIdAndDelete_def
      List_findOneAndUpdate_pull_def map_update_first attempt_Inl_iff attempt_Inr_iff
      split: sum.splits if_splits)

lemma handle_names:
  "names (snd (handle gen today rq st)) = names st \<or>
   (\<exists>seg. rq = GetCustom seg \<and> capitalize seg \<notin> set (names st) \<and>
      names (snd (handle gen today rq st)) = names st @ [capitalize seg])"
  using get_custom_names
  by (cases rq) (simp_all add: get_home_names post_add_names post_edit_names post_delete_names)

lemma handle_distinct_names:
  "distinct_names st \<Longrightarrow> distinct_names (snd (handle gen today rq st))"
  using handle_names[of gen today rq st] by (auto simp: distinct_names_def)

lemma run_distinct_names: "distinct_names st \<Longrightarrow> distinct_names (run gen rqs st)"
proof (induction rqs arbitrary: st)
  case Nil
  then show ?case by simp
next
  case (Cons a rqs)
  obtain today rq where a: "a = (today, rq)" by (cases a)
  from Cons.prems have "distinct_names (snd (handle gen today rq st))"
    by (rule handle_distinct_names)
  from Cons.IH[OF this] show ?case unfolding a by simp
qed



lemma startup_empty_names: "names (startup gen (empty_store fs)) = []"
  by (simp add: startup_names) (simp add: names_def empty_store_def)

section \<open>The identifiers in the collection of items under every handler\<close>

lemma ids_fresh_append:
  assumes inj: "inj gen" and f: "ids_fresh gen st"
    and it: "item_coll s = item_coll st @ ds" and n: "next_oid st + length ds \<le> next_oid s"
    and ds: "map item_id ds = map gen [next_oid st ..< next_oid st + length ds]"
  shows "ids_fresh gen s"
proof -
  have d1: "distinct (map item_id ds)"
    unfolding ds using inj by (simp add: distinct_map inj_on_def inj_def)
  have d2: "set (map item_id (item_coll st)) \<inter> set (map item_id ds) = {}"
  proof -
    have "x \<notin> set (map item_id ds)" if "x \<in> set (map item_id (item_coll st))" for x
    proof -
      from that f obtain k where k: "k < next_oid st" "x = gen k"
        by (auto simp: ids_fresh_def)
      show ?thesis
      proof
        assume "x \<in> set (map item_id ds)"
        then obtain j where j: "next_oid st \<le> j" "x = gen j" unfolding ds by auto
        from j(2) k(2) have "gen j = gen k" by simp
        from injD[OF inj this] j(1) k(1) show False by simp
      qed
    qed
    then show ?thesis by blast
  qed
  have a: "distinct (map item_id (item_coll s))"
    unfolding it using f d1 d2 by (simp add: ids_fresh_def)
  have "set (map item_id ds) \<subseteq> gen ` {..<next_oid s}"
    unfolding ds using n by auto
  moreover have "set (map item_id (item_coll st)) \<subseteq> gen ` {..<next_oid s}"
  proof -
    from n have "{..<next_oid st} \<subseteq> {..<next_oid s}" by auto
    then have "gen ` {..<next_oid st} \<subseteq> gen ` {..<next_oid s}" by (rule image_mono)
    with f show ?thesis unfolding ids_fresh_def by blast
  qed
  ultimately have "set (map item_id (item_coll s)) \<subseteq> gen ` {..<next_oid s}"
    unfolding it by simp
  with a show ?thesis by (simp add: ids_fresh_def)
qed

lemma ids_fresh_sub:
  assumes f: "ids_fresh gen st" and d: "distinct (map item_id (item_coll s))"
    and sub: "set (map item_id (item_coll s)) \<subseteq> set (map item_id (item_coll st))"
    and n: "next_oid st \<le> next_oid s"
  shows "ids_fresh gen s"
proof -
  from n have "{..<next_oid st} \<subseteq> {..<next_oid s}" by auto
  then have "gen ` {..<next_oid st} \<subseteq> gen ` {..<next_oid s}" by (rule image_mono)
  with f sub have "set (map item_id (item_coll s)) \<subseteq> gen ` {..<next_oid s}"
    unfolding ids_fresh_def by blast
  with d show ?thesis by (simp add: ids_fresh_def)
qed

lemma ids_fresh_same:
  assumes f: "ids_fresh gen st" and it: "map item_id (item_coll s) = map item_id (item_coll st)"
    and n: "next_oid st \<le> next_oid s"
  shows "ids_fresh gen s"
  using f n by (intro ids_fresh_sub[OF f]) (simp_all add: it ids_fresh_def)

lemma remove_first_ids:
  "distinct (map g xs) \<Longrightarrow>
     distinct (map g (remove_first P xs)) \<and> set (map g (remove_first P xs)) \<subseteq> set (map g xs)"
  by (induction xs) auto

lemma createDefaultItems_cases:
  assumes "createDefaultItems gen st = Inl s \<or> createDefaultItems gen st = Inr (ds, s)"
  shows "next_oid s = next_oid st + 3 \<and>
     (item_coll s = item_coll st \<or>
      (\<exists>xs. item_coll s = item_coll st @ xs \<and> length xs = 3 \<and>
         map item_id xs = map gen [next_oid st ..< next_oid st + length xs]))"
proof -
  have u: "[next_oid st ..< next_oid st + 3] =
      [next_oid st, Suc (next_oid st), Suc (Suc (next_oid st))]"
    by (simp add: upt_rec)
  let ?xs = "[\<lparr>item_id = gen (next_oid st), item_name = ''Welcome to your todolist!''\<rparr>,
              \<lparr>item_id = gen (Suc (next_oid st)), item_name = ''Hit the + to add a new item''\<rparr>,
              \<lparr>item_id = gen (Suc (Suc (next_oid st))),
               item_name = ''<-- Hit this to delete an item''\<rparr>]"
  have x: "length ?xs = 3 \<and> map item_id ?xs = map gen [next_oid st ..< next_oid st + length ?xs]"
    using u by simp
  from assms have "next_oid s = next_oid st + 3 \<and>
     (item_coll s = item_coll st \<or> item_coll s = item_coll st @ ?xs)"
    by (auto simp: createDefaultItems_def new_Item_def Item_find_def Item_insertMany_def Let_def
        attempt_Inl_iff attempt_Inr_iff split: sum.splits if_splits)
  with x show ?thesis by blast
qed

lemma createDefaultItems_ids_fresh:
  assumes inj: "inj gen" and f: "ids_fresh gen st"
    and c: "createDefaultItems gen st = Inl s \<or> createDefaultItems gen st = Inr (ds, s)"
  shows "ids_fresh gen s"
proof -
  from createDefaultItems_cases[OF c] have n: "next_oid s = next_oid st + 3"
    and i: "item_coll s = item_coll st \<or>
      (\<exists>xs. item_coll s = item_coll st @ xs \<and> length xs = 3 \<and>
         map item_id xs = map gen [next_oid st ..< next_oid st + length xs])" by simp_all
  from i show ?thesis
  proof
    assume "item_coll s = item_coll st"
    with f n show ?thesis by (intro ids_fresh_same[of gen st s]) simp_all
  next
    assume "\<exists>xs. item_coll s = item_coll st @ xs \<and> length xs = 3 \<and>
         map item_id xs = map gen [next_oid st ..< next_oid st + length xs]"
    then obtain xs where "item_coll s = item_coll st @ xs" "length xs = 3"
      "map item_id xs = map gen [next_oid st ..< next_oid st + length xs]" by blast
    with n show ?thesis by (intro ids_fresh_append[OF inj f, of s xs]) simp_all
  qed
qed

lemma startup_ids_fresh: "inj gen \<Longrightarrow> ids_fresh gen st \<Longrightarrow> ids_fresh gen (startup gen st)"
  using createDefaultItems_ids_fresh[of gen st]
  by (auto simp: startup_def split: sum.splits)

lemma get_home_ids_fresh:
  assumes inj: "inj gen" and f: "ids_fresh gen st"
  shows "ids_fresh gen (snd (get_home gen today st))"
proof (cases "attempt st")
  case (Inl s)
  then have "ids_fresh gen s"
    using f by (intro ids_fresh_same[OF f]) (auto simp: attempt_Inl_iff)
  with Inl show ?thesis by (simp add: get_home_def Item_find_def)
next
  case (Inr s)
  then have s: "ids_fresh gen s"
    using f by (intro ids_fresh_same[OF f]) (auto simp: attempt_Inr_iff)
  show ?thesis
  proof (cases "createDefaultItems gen s")
    case (Inl s')
    with createDefaultItems_ids_fresh[OF inj s, of s'] have "ids_fresh gen s'" by simp
    with Inl Inr s show ?thesis by (simp add: get_home_def Item_find_def)
  next
    case (Inr p)
    obtain ds s' where p: "p = (ds, s')" by (cases p)
    with Inr createDefaultItems_ids_fresh[OF inj s, of s' ds] have "ids_fresh gen s'" by simp
    with Inr p \<open>attempt st = Inr s\<close> s show ?thesis by (simp add: get_home_def Item_find_def)
  qed
qed

lemma upsert_ids_fresh:
  assumes f: "ids_fresh gen st"
    and c: "List_findOneAndUpdate_upsert gen nm its st = Inl s \<or>
            List_findOneAndUpdate_upsert gen nm its st = Inr (ld, s)"
  shows "ids_fresh gen s"
proof -
  from c have "item_coll s = item_coll st \<and> next_oid st \<le> next_oid s"
    by (auto simp: List_findOneAndUpdate_upsert_def Let_def attempt_Inl_iff attempt_Inr_iff
        split: sum.splits option.splits)
  then show ?thesis by (intro ids_fresh_same[OF f]) simp_all
qed

lemma get_custom_ids_fresh:
  assumes inj: "inj gen" and f: "ids_fresh gen st"
  shows "ids_fresh gen (snd (get_custom gen seg st))"
proof (cases "createDefaultItems gen st")
  case (Inl s)
  with createDefaultItems_ids_fresh[OF inj f, of s] show ?thesis
    by (simp add: get_custom_def)
next
  case (Inr p)
  obtain ds s where p: "p = (ds, s)" by (cases p)
  with Inr createDefaultItems_ids_fresh[OF inj f, of s ds] have s: "ids_fresh gen s" by simp
  show ?thesis
  proof (cases "List_findOneAndUpdate_upsert gen (capitalize seg) ds s")
    case (Inl s')
    with upsert_ids_fresh[OF s, of "capitalize seg" ds s'] have "ids_fresh gen s'" by simp
    with Inl \<open>createDefaultItems gen st = Inr p\<close> p show ?thesis
      by (simp add: get_custom_def)
  next
    case (Inr q)
    obtain ld s' where q: "q = (ld, s')" by (cases q)
    with Inr upsert_ids_fresh[OF s, of "capitalize seg" ds s' ld] have "ids_fresh gen s'" by simp
    with Inr q \<open>createDefaultItems gen st = Inr p\<close> p show ?thesis
      by (simp add: get_custom_def)
  qed
qed

lemma post_add_cases:
  "next_oid st \<le> next_oid (snd (post_add gen today itemName listName st)) \<and>
   (item_coll (snd (post_add gen today itemName listName st)) = item_coll st \<or>
    next_oid (snd (post_add gen today itemName listName st)) = Suc (next_oid st) \<and>
    (\<exists>d. item_id d = gen (next_oid st) \<and>
       item_coll (snd (post_add gen today itemName listName st)) = item_coll st @ [d]))"
  by (auto simp: post_add_def new_Item_def Item_save_def List_findOne_def List_save_push_def
      Let_def attempt_Inl_iff attempt_Inr_iff
      split: sum.splits if_splits prod.splits option.splits)

lemma post_add_ids_fresh:
  assumes inj: "inj gen" and f: "ids_fresh gen st"
  shows "ids_fresh gen (snd (post_add gen today itemName listName st))"
proof -
  let ?s = "snd (post_add gen today itemName listName st)"
  from post_add_cases[of st gen today itemName listName]
  have n: "next_oid st \<le> next_oid ?s"
    and c: "item_coll ?s = item_coll st \<or>
      next_oid ?s = Suc (next_oid st) \<and>
      (\<exists>d. item_id d = gen (next_oid st) \<and> item_coll ?s = item_coll st @ [d])" by simp_all
  from c show ?thesis
  proof
    assume "item_coll ?s = item_coll st"
    with n show ?thesis by (intro ids_fresh_same[OF f]) simp_all
  next
    assume "next_oid ?s = Suc (next_oid st) \<and>
      (\<exists>d. item_id d = gen (next_oid st) \<and> item_coll ?s = item_coll st @ [d])"
    then obtain d where "next_oid ?s = Suc (next_oid st)" "item_id d = gen (next_oid st)"
      "item_coll ?s = item_coll st @ [d]" by blast
    then show ?thesis by (intro ids_fresh_append[OF inj f, of ?s "[d]"]) simp_all
  qed
qed

lemma post_edit_ids_fresh:
  assumes f: "ids_fresh gen st"
  shows "ids_fresh gen (snd (post_edit today oid title listName st))"
proof -
  have "map item_id (item_coll (snd (post_edit today oid title listName st))) =
      map item_id (item_coll st) \<and>
    next_oid (snd (post_edit today oid title listName st)) = next_oid st"
    by (auto simp: post_edit_def Item_findByIdAndUpdate_def List_findOneAndUpdate_set_def
        map_update_first set_name_id attempt_Inl_iff attempt_Inr_iff split: sum.splits)
  then show ?thesis by (intro ids_fresh_same[OF f]) simp_all
qed

lemma post_delete_ids_fresh:
  assumes f: "ids_fresh gen st"
  shows "ids_fresh gen (snd (post_delete today listName oid st))"
proof -
  let ?s = "snd (post_delete today listName oid st)"
  from f have d: "distinct (map item_id (item_coll st))" by (simp add: ids_fresh_def)
  have "(item_coll ?s = item_coll st \<or>
      item_coll ?s = remove_first (\<lambda>d. Str (item_id d) = oid) (item_coll st)) \<and>
    next_oid ?s = next_oid st"
    by (auto simp: post_delete_def Item_findByIdAndDelete_def List_findOneAndUpdate_pull_def
        attempt_Inl_iff attempt_Inr_iff split: sum.splits)
  with remove_first_ids[OF d, of "\<lambda>d. Str (item_id d) = oid"] d
  have "distinct (map item_id (item_coll ?s)) \<and>
    set (map item_id (item_coll ?s)) \<subseteq> set (map item_id (item_coll st)) \<and>
    next_oid st \<le> next_oid ?s"
    by auto
  then show ?thesis by (intro ids_fresh_sub[OF f]) simp_all
qed

lemma handle_ids_fresh:
  "inj gen \<Longrightarrow> ids_fresh gen st \<Longrightarrow> ids_fresh gen (snd (handle gen today rq st))"
  by (cases rq)
    (simp_all add: get_home_ids_fresh get_custom_ids_fresh post_add_ids_fresh
      post_edit_ids_fresh post_delete_ids_fresh)

lemma run_ids_fresh: "inj gen \<Longrightarrow> ids_fresh gen st \<Longrightarrow> ids_fresh gen (run gen rqs st)"
proof (induction rqs arbitrary: st)
  case Nil
  then show ?case by simp
next
  case (Cons a rqs)
  obtain today rq where a: "a = (today, rq)" by (cases a)
  from Cons.prems have "ids_fresh gen (snd (handle gen today rq st))"
    by (intro handle_ids_fresh)
  from Cons.IH[OF Cons.prems(1) this] show ?case unfolding a by simp
qed

lemma reachable_item_ids_distinct:
  assumes "inj gen"
  shows "distinct (map item_id (item_coll (run gen rqs (startup gen (empty_store fs)))))"
proof -
  have "ids_fresh gen (empty_store fs)" by (simp add: ids_fresh_def empty_store_def)
  from run_ids_fresh[OF assms startup_ids_fresh[OF assms this]] show ?thesis
    by (simp add: ids_fresh_def)
qed

section \<open>The custom list handler\<close>



section \<open>The seeder\<close>

text \<open>
  Claim C2.  In every state of the collections, when the store answers, the seeder returns
  three items with the three placeholder names, whether the collection of items is empty or
  not.  It changes the collection of items if and only if that collection is empty, and then
  the collection holds exactly the three returned items; the lists are never touched.  A
  second run, on the state the first one leaves, returns the three names again and inserts
  nothing.
\<close>

theorem createDefaultItems_seeds:
  assumes "faults st = []"
  shows "\<exists>ds st'. createDefaultItems gen st = Inr (ds, st')
     \<and> map item_name ds = default_names
     \<and> item_coll st' = (if item_coll st = [] then ds else item_coll st)
     \<and> (item_coll st' \<noteq> item_coll st) = (item_coll st = [])
     \<and> list_coll st' = list_coll st
     \<and> (\<exists>ds' st''. createDefaultItems gen st' = Inr (ds', st'')
           \<and> map item_name ds' = default_names
           \<and> item_coll st'' = item_coll st' \<and> list_coll st'' = list_coll st')"
  using assms
  by (simp add: createDefaultItems_no_faults Let_def default_names_def)

theorem createDefaultItems_seeds_witness:
  "faults (empty_store []) = [] \<and>
   (\<exists>ds st'. createDefaultItems counter_oid (empty_store []) = Inr (ds, st')
     \<and> map item_name ds = default_names
     \<and> item_coll st' = ds
     \<and> list_coll st' = []
     \<and> (\<exists>ds' st''. createDefaultItems counter_oid st' = Inr (ds', st'')
           \<and> map item_name ds' = default_names
           \<and> item_coll st'' = ds \<and> list_coll st'' = []))"
proof -
  have nf: "faults (empty_store []) = []" by (simp add: empty_store_def)
  from createDefaultItems_seeds[OF nf, of counter_oid]
  obtain ds st' where
    a: "createDefaultItems counter_oid (empty_store []) = Inr (ds, st')"
       "map item_name ds = default_names"
       "item_coll st' = (if item_coll (empty_store []) = [] then ds else item_coll (empty_store []))"
       "list_coll st' = list_coll (empty_store [])"
    and b: "\<exists>ds' st''. createDefaultItems counter_oid st' = Inr (ds', st'')
           \<and> map item_name ds' = default_names
           \<and> item_coll st'' = item_coll st' \<and> list_coll st'' = list_coll st'"
    by blast
  from a have c: "item_coll st' = ds" "list_coll st' = []" by (simp_all add: empty_store_def)
  from b c have "\<exists>ds' st''. createDefaultItems counter_oid st' = Inr (ds', st'')
           \<and> map item_name ds' = default_names
           \<and> item_coll st'' = ds \<and> list_coll st'' = []" by simp
  with a(1,2) c nf show ?thesis by blast
qed

section \<open>One list for each name\<close>

text \<open>
  Claim C3.  The handler of every request, whatever the request and whatever the store does,
  takes a state with at most one list for each name to a state with at most one list for each
  name.  Hence every state reached from the empty store by the start of the server and a
  sequence of requests, handled one after the other, has at most one list for each name.
\<close>

theorem one_list_per_name:
  "(distinct_names st \<longrightarrow> distinct_names (snd (handle gen today rq st))) \<and>
   distinct_names (run gen rqs (startup gen (empty_store fs)))"
proof -
  have "distinct_names (startup gen (empty_store fs))"
    by (simp add: distinct_names_def startup_empty_names)
  then have "distinct_names (run gen rqs (startup gen (empty_store fs)))"
    by (rule run_distinct_names)
  with handle_distinct_names show ?thesis by blast
qed

theorem one_list_per_name_witness:
  "distinct_names sample_store \<and>
   distinct_names (snd (handle counter_oid monday (GetCustom ''work'') sample_store)) \<and>
   distinct_names (snd (handle counter_oid monday (PostAdd (Str ''Buy bread'') (Str ''Work''))
     sample_store)) \<and>
   distinct_names (run counter_oid
     [(monday, GetCustom ''foo''), (monday, GetCustom ''Foo''),
      (monday, PostAdd (Str ''Buy bread'') (Str ''Foo''))]
     (startup counter_oid (empty_store [])))"
proof -
  have d: "distinct_names sample_store"
    by (simp add: distinct_names_def names_def sample_store_def)
  from one_list_per_name[of sample_store counter_oid monday "GetCustom ''work''" "[]" "[]"] d
  have a: "distinct_names (snd (handle counter_oid monday (GetCustom ''work'') sample_store))"
    by blast
  from one_list_per_name[of sample_store counter_oid monday
      "PostAdd (Str ''Buy bread'') (Str ''Work'')" "[]" "[]"] d
  have b: "distinct_names (snd (handle counter_oid monday
      (PostAdd (Str ''Buy bread'') (Str ''Work'')) sample_store))"
    by blast
  from one_list_per_name[of sample_store counter_oid monday GetHome
      "[(monday, GetCustom ''foo''), (monday, GetCustom ''Foo''),
        (monday, PostAdd (Str ''Buy bread'') (Str ''Foo''))]" "[]"]
  have c: "distinct_names (run counter_oid
     [(monday, GetCustom ''foo''), (monday, GetCustom ''Foo''),
      (monday, PostAdd (Str ''Buy bread'') (Str ''Foo''))]
     (startup counter_oid (empty_store [])))"
    by blast
  from d a b c show ?thesis by (intro conjI)
qed

section \<open>The add handler\<close>








section \<open>The edit handler\<close>



section \<open>The delete handler\<close>



section \<open>Embedded copies\<close>

text \<open>
  Claim C9.  For every state, every edit or delete request and every behaviour of the store:
  when the list name of the request is not today's date string (the branches that work on a
  list document), the collection of items after the request is the one before it; when it is
  today's date string (the branches that work on the collection of items), the collection of
  lists, and with it every embedded item, is the one before it.
\<close>

theorem embedded_copies_independent:
  "(listName \<noteq> Str today \<longrightarrow>
      item_coll (snd (post_edit today oid title listName st)) = item_coll st \<and>
      item_coll (snd (post_delete today listName oid st)) = item_coll st) \<and>
   (listName = Str today \<longrightarrow>
      list_coll (snd (post_edit today oid title listName st)) = list_coll st \<and>
      list_coll (snd (post_delete today listName oid st)) = list_coll st)"
  by (auto simp: post_edit_def post_delete_def Item_findByIdAndUpdate_def
      Item_findByIdAndDelete_def List_findOneAndUpdate_set_def List_findOneAndUpdate_pull_def
      attempt_Inl_iff attempt_Inr_iff split: sum.splits)

theorem embedded_copies_independent_witness:
  "Str ''Work'' \<noteq> Str monday \<and>
   item_coll (snd (post_edit monday (Str ''c1'') (Str ''Write the report'') (Str ''Work'')
     sample_store)) = item_coll sample_store \<and>
   item_coll (snd (post_delete monday (Str ''Work'') (Str ''c1'') sample_store)) =
     item_coll sample_store \<and>
   list_coll (snd (post_edit monday (Str ''a1'') (Str ''Buy oat milk'') (Str monday)
     sample_store)) = list_coll sample_store \<and>
   list_coll (snd (post_delete monday (Str monday) (Str ''a1'') sample_store)) =
     list_coll sample_store"
proof -
  have w: "Str ''Work'' \<noteq> Str monday" by (simp add: monday_def)
  from embedded_copies_independent[of "Str ''Work''" monday "Str ''c1''"
      "Str ''Write the report''" sample_store] w
  have a: "item_coll (snd (post_edit monday (Str ''c1'') (Str ''Write the report'') (Str ''Work'')
     sample_store)) = item_coll sample_store"
    by blast
  from embedded_copies_independent[of "Str ''Work''" monday "Str ''c1''"
      "Str ''Write the report''" sample_store] w
  have b: "item_coll (snd (post_delete monday (Str ''Work'') (Str ''c1'') sample_store)) =
     item_coll sample_store"
    by blast
  from embedded_copies_independent[of "Str monday" monday "Str ''a1''"
      "Str ''Buy oat milk''" sample_store]
  have c: "list_coll (snd (post_edit monday (Str ''a1'') (Str ''Buy oat milk'') (Str monday)
     sample_store)) = list_coll sample_store"
    by blast
  from embedded_copies_independent[of "Str monday" monday "Str ''a1''"
      "Str ''Buy oat milk''" sample_store]
  have d: "list_coll (snd (post_delete monday (Str monday) (Str ''a1'') sample_store)) =
     list_coll sample_store"
    by blast
  from w a b c d show ?thesis by (intro conjI)
qed

section \<open>The add handler takes the list name as it is\<close>








end
